theory Spec2Isabelle
  imports
    Main
    "HOL-Library.AList"
    "HOL-Library.Option_ord"
    "HOL-Library.Product_Lexorder"
begin

section \<open>Floor plan management: layout merge, room suggestion, room booking\<close>

text \<open>
  The development embeds three functions of the repository:
  \<^item> \<open>resolveConflicts\<close> of \<open>utils/conflictResolution.js\<close>, the merge of two layouts;
  \<^item> \<open>suggestMeetingRoom\<close> of \<open>controllers/meetingRoomController.js\<close>;
  \<^item> \<open>bookMeetingRoom\<close> of the same controller.
  Instants (JavaScript \<open>Date\<close> values, element timestamps) are integers, the
  milliseconds of the epoch. The document store is explicit state: the collection of
  rooms and the collection of bookings, each a list in the store's document order.
  A failure of the store itself (the \<open>catch\<close> branches answering 500) is not modelled.
\<close>

subsection \<open>Layouts and \<open>resolveConflicts\<close>\<close>

record element =
  payload :: string
  timestamp :: int

text \<open>
  A layout is a JavaScript object: its own properties, as the entries
  \<open>Object.entries\<close> lists them. An object has each own key once, so a well-formed
  layout has distinct keys.
\<close>

type_synonym layout = "(string \<times> element) list"

definition wf_layout :: "layout \<Rightarrow> bool" where
  "wf_layout l = distinct (map fst l)"

text \<open>
  The property read \<open>existingLayout[key]\<close> looks at the object's own properties
  first and then at its prototype, \<open>Object.prototype\<close>, whose members have these names.
\<close>

definition object_prototype_names :: "string list" where
  "object_prototype_names =
     [''constructor'', ''hasOwnProperty'', ''isPrototypeOf'', ''propertyIsEnumerable'',
      ''toLocaleString'', ''toString'', ''valueOf'', ''__proto__'',
      ''__defineGetter__'', ''__defineSetter__'', ''__lookupGetter__'',
      ''__lookupSetter__'']"

datatype js_value = Undefined | Inherited | Own element

definition js_get :: "layout \<Rightarrow> string \<Rightarrow> js_value" where
  "js_get obj key =
     (case map_of obj key of
        Some e \<Rightarrow> Own e
      | None \<Rightarrow> if key \<in> set object_prototype_names then Inherited else Undefined)"

text \<open>
  \<open>if (existingLayout[key])\<close>: an element is an object and so is truthy, a member of
  the prototype is a function or an object and so is truthy, \<open>undefined\<close> is falsy.
\<close>

fun truthy :: "js_value \<Rightarrow> bool" where
  "truthy Undefined = False"
| "truthy Inherited = True"
| "truthy (Own e) = True"

text \<open>
  \<open>existingLayout[key].timestamp\<close>: a member of the prototype has no such property,
  the read gives \<open>undefined\<close> (here \<open>None\<close>).
\<close>

fun timestamp_of :: "js_value \<Rightarrow> int option" where
  "timestamp_of (Own e) = Some (timestamp e)"
| "timestamp_of Inherited = None"
| "timestamp_of Undefined = None"

text \<open>\<open>a > b\<close> on numbers; a comparison with \<open>undefined\<close> is false.\<close>

fun js_gt :: "int \<Rightarrow> int option \<Rightarrow> bool" where
  "js_gt a (Some b) = (a > b)"
| "js_gt a None = False"

text \<open>
  The body of the loop, for one entry \<open>[key, value]\<close> of \<open>newLayout\<close>. The assignment
  \<open>resolvedLayout[key] = value\<close> replaces the value of an own key where it stands and
  appends a new key, which is \<^const>\<open>AList.update\<close>.
\<close>

definition resolve_entry :: "layout \<Rightarrow> string \<times> element \<Rightarrow> layout \<Rightarrow> layout" where
  "resolve_entry existingLayout kv resolvedLayout =
     (case kv of (key, val) \<Rightarrow>
        if truthy (js_get existingLayout key) then
          (if js_gt (timestamp val) (timestamp_of (js_get existingLayout key))
           then AList.update key val resolvedLayout
           else resolvedLayout)
        else AList.update key val resolvedLayout)"

definition resolveConflicts :: "layout \<Rightarrow> layout \<Rightarrow> layout" where
  "resolveConflicts existingLayout newLayout =
     fold (resolve_entry existingLayout) newLayout existingLayout"

text \<open>
  Two layouts are equal as mappings when every key reads the same in both; the order
  in which an object lists its keys is not part of the comparison.
\<close>

definition same_layout :: "layout \<Rightarrow> layout \<Rightarrow> bool" where
  "same_layout a b = (map_of a = map_of b)"

text \<open>
  Whether the loop assigns the entry \<open>[key, val]\<close> of \<open>newLayout\<close>: the two tests of its
  body read as one condition.
\<close>

definition accepts :: "layout \<Rightarrow> string \<Rightarrow> element \<Rightarrow> bool" where
  "accepts existingLayout key val =
     (if truthy (js_get existingLayout key)
      then js_gt (timestamp val) (timestamp_of (js_get existingLayout key))
      else True)"

text \<open>A layout none of whose keys is the name of a member of \<open>Object.prototype\<close>.\<close>

definition plain_keys :: "layout \<Rightarrow> bool" where
  "plain_keys l = list_all (\<lambda>k. k \<notin> set object_prototype_names) (map fst l)"

text \<open>
  Two layouts without a tie: no key carries, in the two of them, the same timestamp
  with different elements.
\<close>

definition tie_free :: "layout \<Rightarrow> layout \<Rightarrow> bool" where
  "tie_free a b =
     list_all (\<lambda>(k, e). case map_of b k of
                           None \<Rightarrow> True
                         | Some e' \<Rightarrow> timestamp e = timestamp e' \<longrightarrow> e = e') a"

subsection \<open>Rooms, bookings and the store\<close>

record room =
  room_id :: nat
  capacity :: int
  lastBooked :: "int option"

record booking =
  meetingRoom :: nat
  bookedBy :: string
  participants :: int
  startTime :: int
  endTime :: int

record store =
  rooms :: "room list"
  bookings :: "booking list"

text \<open>The body of a booking request, \<open>req.body\<close> of \<open>bookMeetingRoom\<close>.\<close>

record request =
  req_roomId :: nat
  req_bookedBy :: string
  req_participants :: int
  req_startTime :: int
  req_endTime :: int

subsection \<open>The overlap test\<close>

text \<open>
  The \<open>$or\<close> of the query of \<open>bookMeetingRoom\<close>, for a stored booking with times
  \<open>bs\<close>, \<open>be\<close> and a request with times \<open>startT\<close>, \<open>endT\<close>.
\<close>

definition overlap_query :: "int \<Rightarrow> int \<Rightarrow> int \<Rightarrow> int \<Rightarrow> bool" where
  "overlap_query bs be startT endT =
     ((bs < endT \<and> be > startT)
      \<or> (bs \<le> startT \<and> be \<ge> endT)
      \<or> (bs \<ge> startT \<and> be \<le> endT))"

text \<open>
  The specification's predicate on half-open intervals \<open>[start, end)\<close>, written from
  its words: \<open>a.start < b.end AND b.start < a.end\<close>.
\<close>

definition spec_overlaps :: "int \<times> int \<Rightarrow> int \<times> int \<Rightarrow> bool" where
  "spec_overlaps a b = (fst a < snd b \<and> fst b < snd a)"

definition interval :: "booking \<Rightarrow> int \<times> int" where
  "interval b = (startTime b, endTime b)"

text \<open>
  The bookings committed for one room, and the invariant on them: no two of them
  overlap as half-open intervals.
\<close>

definition room_bookings :: "store \<Rightarrow> nat \<Rightarrow> booking list" where
  "room_bookings s rid = filter (\<lambda>b. meetingRoom b = rid) (bookings s)"

fun pairwise_disjoint :: "booking list \<Rightarrow> bool" where
  "pairwise_disjoint [] = True"
| "pairwise_disjoint (b # bs) =
     (list_all (\<lambda>c. \<not> spec_overlaps (interval b) (interval c)) bs \<and> pairwise_disjoint bs)"

subsection \<open>\<open>suggestMeetingRoom\<close>\<close>

text \<open>
  \<open>MeetingRoom.find({capacity: {$gte: participants}}).sort({capacity: 1, lastBooked: 1})\<close>:
  the rooms of sufficient capacity, in ascending order of the pair of capacity and
  \<open>lastBooked\<close>. A room never booked has no \<open>lastBooked\<close>, which the store orders
  before every date (\<open>None\<close> is below \<open>Some t\<close>). Among rooms equal on both keys the
  store promises no order; the model keeps them in the order of the collection,
  which stands for whatever order the store holds them in.
\<close>

definition room_sort_key :: "room \<Rightarrow> int \<times> int option" where
  "room_sort_key r = (capacity r, lastBooked r)"

definition find_rooms :: "room list \<Rightarrow> int \<Rightarrow> room list" where
  "find_rooms rs n = sort_key room_sort_key (filter (\<lambda>r. capacity r \<ge> n) rs)"

text \<open>Status 404 \<open>No suitable meeting room found\<close>, or status 200 with the room.\<close>

datatype suggest_response = NoSuitableRoom | Suggested room

definition suggestMeetingRoom :: "room list \<Rightarrow> int \<Rightarrow> suggest_response" where
  "suggestMeetingRoom rs n =
     (let found = find_rooms rs n
      in if length found = 0 then NoSuitableRoom else Suggested (hd found))"

text \<open>
  The specification's total order on rooms, written from its words: capacity
  ascending, then \<open>lastAllocatedAt\<close> ascending, then identity ascending.
\<close>

definition spec_room_key :: "room \<Rightarrow> int \<times> int option \<times> nat" where
  "spec_room_key r = (capacity r, lastBooked r, room_id r)"

subsection \<open>\<open>bookMeetingRoom\<close>\<close>

definition findById :: "room list \<Rightarrow> nat \<Rightarrow> room option" where
  "findById rs rid = find (\<lambda>r. room_id r = rid) rs"

definition overlappingBookings :: "store \<Rightarrow> request \<Rightarrow> booking list" where
  "overlappingBookings s req =
     filter (\<lambda>b. meetingRoom b = req_roomId req
                \<and> overlap_query (startTime b) (endTime b) (req_startTime req) (req_endTime req))
       (bookings s)"

text \<open>\<open>meetingRoom.save()\<close> writes the changed field to the document of that identity.\<close>

definition save_lastBooked :: "nat \<Rightarrow> int \<Rightarrow> room list \<Rightarrow> room list" where
  "save_lastBooked rid now rs =
     map (\<lambda>r. if room_id r = rid then r\<lparr>lastBooked := Some now\<rparr> else r) rs"

text \<open>
  The four answers of \<open>bookMeetingRoom\<close>: 404 \<open>Meeting room not found\<close>, 400
  \<open>Number of participants exceeds room capacity\<close>, 400 \<open>Meeting room is already booked
  for the specified time slot\<close>, and 201 with the new booking.
\<close>

datatype book_response = RoomNotFound | CapacityExceeded | SlotConflict | Booked booking

text \<open>The call takes the store, the clock's reading \<open>new Date()\<close> and the request.\<close>

definition bookMeetingRoom :: "store \<Rightarrow> int \<Rightarrow> request \<Rightarrow> book_response \<times> store" where
  "bookMeetingRoom s now req =
     (case findById (rooms s) (req_roomId req) of
        None \<Rightarrow> (RoomNotFound, s)
      | Some mr \<Rightarrow>
          if req_participants req > capacity mr then (CapacityExceeded, s)
          else if length (overlappingBookings s req) > 0 then (SlotConflict, s)
          else
            let newBooking = \<lparr>meetingRoom = req_roomId req, bookedBy = req_bookedBy req,
                                participants = req_participants req,
                                startTime = req_startTime req, endTime = req_endTime req\<rparr>;
                s1 = s\<lparr>bookings := bookings s @ [newBooking]\<rparr>;
                s2 = s1\<lparr>rooms := save_lastBooked (room_id mr) now (rooms s1)\<rparr>
            in (Booked newBooking, s2))"

text \<open>
  A sequence of calls made one after the other, each with its clock reading, all of
  which succeed: the store after the last one, or \<open>None\<close> when one is rejected.
\<close>

fun book_seq :: "store \<Rightarrow> (int \<times> request) list \<Rightarrow> store option" where
  "book_seq s [] = Some s"
| "book_seq s ((now, req) # calls) =
     (case bookMeetingRoom s now req of
        (Booked b, s') \<Rightarrow> book_seq s' calls
      | (RoomNotFound, s') \<Rightarrow> None
      | (CapacityExceeded, s') \<Rightarrow> None
      | (SlotConflict, s') \<Rightarrow> None)"

text \<open>
  A sequence of calls made one after the other, with the answer of each: every call
  runs to its answer on the store the call before it left.
\<close>

fun book_all :: "store \<Rightarrow> (int \<times> request) list \<Rightarrow> book_response list \<times> store" where
  "book_all s [] = ([], s)"
| "book_all s ((now, req) # calls) =
     (case bookMeetingRoom s now req of
        (r, s') \<Rightarrow> (case book_all s' calls of (rs, s'') \<Rightarrow> (r # rs, s'')))"


subsection \<open>Calls that interleave at the awaits of \<open>bookMeetingRoom\<close>\<close>

text \<open>
  The handler awaits the store four times. Between \<open>await Booking.find\<close> and
  \<open>await newBooking.save()\<close> it holds no lock and writes under no condition, so another
  call can run there. The handler is cut at that point in two phases: the reads and
  the three tests from \<open>findById\<close> to the test of \<open>overlappingBookings.length\<close>,
  which answer a rejection or keep the room document read; and the two saves with
  the answer 201.
\<close>

datatype read_result = Rejected book_response | Clear room

definition read_phase :: "store \<Rightarrow> request \<Rightarrow> read_result" where
  "read_phase s req =
     (case findById (rooms s) (req_roomId req) of
        None \<Rightarrow> Rejected RoomNotFound
      | Some mr \<Rightarrow>
          if req_participants req > capacity mr then Rejected CapacityExceeded
          else if length (overlappingBookings s req) > 0 then Rejected SlotConflict
          else Clear mr)"

definition write_phase :: "store \<Rightarrow> int \<Rightarrow> room \<Rightarrow> request \<Rightarrow> book_response \<times> store" where
  "write_phase s now mr req =
     (let newBooking = \<lparr>meetingRoom = req_roomId req, bookedBy = req_bookedBy req,
                         participants = req_participants req,
                         startTime = req_startTime req, endTime = req_endTime req\<rparr>;
          s1 = s\<lparr>bookings := bookings s @ [newBooking]\<rparr>;
          s2 = s1\<lparr>rooms := save_lastBooked (room_id mr) now (rooms s1)\<rparr>
      in (Booked newBooking, s2))"

text \<open>
  A call has not started, has passed its tests and holds the room document it read,
  or has answered. A schedule names, step by step, the call that runs its next phase.
\<close>

datatype call_state = Pending | Checked room | Answered book_response

fun step_call :: "store \<Rightarrow> int \<times> request \<Rightarrow> call_state \<Rightarrow> call_state \<times> store" where
  "step_call s (now, req) Pending =
     (case read_phase s req of
        Rejected r \<Rightarrow> (Answered r, s)
      | Clear mr \<Rightarrow> (Checked mr, s))"
| "step_call s (now, req) (Checked mr) =
     (case write_phase s now mr req of (r, s') \<Rightarrow> (Answered r, s'))"
| "step_call s (now, req) (Answered r) = (Answered r, s)"

fun run_schedule ::
  "(int \<times> request) list \<Rightarrow> nat list \<Rightarrow> store \<times> call_state list \<Rightarrow> store \<times> call_state list"
where
  "run_schedule calls [] cfg = cfg"
| "run_schedule calls (i # sched) (s, sts) =
     (if i < length calls \<and> i < length sts
      then (case step_call s (calls ! i) (sts ! i) of
              (st', s') \<Rightarrow> run_schedule calls sched (s', sts[i := st']))
      else run_schedule calls sched (s, sts))"

section \<open>Properties of the overlap test\<close>

text \<open>
  Whatever the four instants are, intervals that overlap as half-open intervals match
  the query, by its first clause.
\<close>

lemma spec_overlaps_imp_overlap_query:
  "spec_overlaps (s, e) (bs, be) \<Longrightarrow> overlap_query bs be s e"
  by (auto simp: spec_overlaps_def overlap_query_def)

text \<open>
  Claim C4, as amended. For a candidate \<open>a = [s, e)\<close> and a stored booking
  \<open>b = [bs, be)\<close> that are both non-empty (\<open>s < e\<close> and \<open>bs < be\<close>), the query's three
  clauses hold exactly when the half-open predicate \<open>a.start < b.end AND
  b.start < a.end\<close> holds. The second clause needs the candidate to be non-empty and
  the third needs the stored booking to be non-empty; \<open>bookMeetingRoom\<close> checks
  neither.
\<close>

theorem overlap_query_eq_spec_overlaps:
  "s < e \<Longrightarrow> bs < be \<Longrightarrow> overlap_query bs be s e = spec_overlaps (s, e) (bs, be)"
  by (auto simp: spec_overlaps_def overlap_query_def)

theorem overlap_query_eq_spec_overlaps_witness:
  "(630::int) < 645 \<and> (600::int) < 660
   \<and> overlap_query 600 660 630 645 = spec_overlaps (630, 645) (600, 660)
   \<and> overlap_query 600 660 630 645"
  using overlap_query_eq_spec_overlaps [of 630 645 600 660]
  by (simp add: spec_overlaps_def)

text \<open>
  Claim C4 as stated fails for an empty candidate: the candidate \<open>[10, 10)\<close> against
  the booking \<open>[10, 11)\<close> matches the second clause of the query, and the half-open
  predicate says they do not overlap.
\<close>

theorem overlap_query_counterexample:
  "overlap_query 10 11 10 10 \<noteq> spec_overlaps (10, 10) (10, 11)"
  by (simp add: spec_overlaps_def overlap_query_def)

section \<open>Properties of \<open>resolveConflicts\<close>\<close>

lemma resolve_entry_accepts:
  "resolve_entry ex (k, v) res = (if accepts ex k v then AList.update k v res else res)"
  by (simp add: resolve_entry_def accepts_def)

lemma map_of_resolve_entry:
  "map_of (resolve_entry ex (k, v) res) k' =
     (if k' = k \<and> accepts ex k v then Some v else map_of res k')"
  by (simp add: resolve_entry_accepts update_conv')

lemma map_of_fold_resolve:
  "distinct (map fst new) \<Longrightarrow>
   map_of (fold (resolve_entry ex) new res) k =
     (case map_of new k of
        None \<Rightarrow> map_of res k
      | Some v \<Rightarrow> if accepts ex k v then Some v else map_of res k)"
proof (induction new arbitrary: res)
  case Nil
  show ?case by simp
next
  case (Cons kv new)
  obtain k' v' where kv: "kv = (k', v')" by (cases kv)
  from Cons.prems kv have fresh: "map_of new k' = None" and dist: "distinct (map fst new)"
    by (auto simp: map_of_eq_None_iff)
  show ?case
  proof (cases "k' = k")
    case True
    with fresh show ?thesis
      by (simp add: kv Cons.IH [OF dist] map_of_resolve_entry)
  next
    case False
    then have "map_of (resolve_entry ex (k', v') res) k = map_of res k"
      by (auto simp: map_of_resolve_entry)
    with False show ?thesis
      by (simp add: kv Cons.IH [OF dist] split: option.splits)
  qed
qed

lemma fold_resolve_unchanged:
  "\<forall>(k, v) \<in> set new. \<not> accepts ex k v \<Longrightarrow> fold (resolve_entry ex) new res = res"
  by (induction new arbitrary: res) (auto simp: resolve_entry_accepts)

lemma accepts_own:
  "map_of ex k = Some e \<Longrightarrow> accepts ex k v = (timestamp v > timestamp e)"
  by (simp add: accepts_def js_get_def)

lemma accepts_absent:
  "map_of ex k = None \<Longrightarrow> accepts ex k v = (k \<notin> set object_prototype_names)"
  by (simp add: accepts_def js_get_def)

lemma plain_keysD: "plain_keys l \<Longrightarrow> map_of l k = Some e \<Longrightarrow> k \<notin> set object_prototype_names"
  by (auto simp: plain_keys_def list_all_iff dest!: map_of_SomeD)

lemma tie_freeD:
  "tie_free a b \<Longrightarrow> map_of a k = Some e \<Longrightarrow> map_of b k = Some e' \<Longrightarrow>
   timestamp e = timestamp e' \<Longrightarrow> e = e'"
proof -
  assume tf: "tie_free a b" and a: "map_of a k = Some e" and b: "map_of b k = Some e'"
    and t: "timestamp e = timestamp e'"
  from a have "(k, e) \<in> set a" by (rule map_of_SomeD)
  with tf have "case map_of b k of None \<Rightarrow> True
                | Some e' \<Rightarrow> timestamp e = timestamp e' \<longrightarrow> e = e'"
    by (auto simp: tie_free_def list_all_iff)
  with b t show "e = e'" by simp
qed

text \<open>
  A key that names a member of \<open>Object.prototype\<close> and is new to the existing layout
  is not copied: the read \<open>existingLayout[key]\<close> finds the inherited member, which is
  truthy and has no timestamp.
\<close>

lemma resolveConflicts_inherited_key:
  "resolveConflicts [] [(''toString'', \<lparr>payload = ''x'', timestamp = 5\<rparr>)] = []"
  by (simp add: resolveConflicts_def resolve_entry_def js_get_def object_prototype_names_def)

text \<open>
  Claim C9. Merging a layout with itself gives the layout back, entry for entry.
\<close>

theorem resolveConflicts_idem:
  assumes "wf_layout a"
  shows "resolveConflicts a a = a"
proof -
  have "\<forall>(k, v) \<in> set a. \<not> accepts a k v"
  proof (clarify)
    fix k v assume "(k, v) \<in> set a" and acc: "accepts a k v"
    with assms have "map_of a k = Some v" by (simp add: wf_layout_def)
    with acc show False by (simp add: accepts_own)
  qed
  then show ?thesis
    unfolding resolveConflicts_def by (rule fold_resolve_unchanged)
qed

theorem resolveConflicts_idem_witness:
  "wf_layout [(''k1'', \<lparr>payload = ''v1'', timestamp = 5\<rparr>),
              (''k2'', \<lparr>payload = ''v2'', timestamp = 7\<rparr>)]
   \<and> resolveConflicts
        [(''k1'', \<lparr>payload = ''v1'', timestamp = 5\<rparr>),
         (''k2'', \<lparr>payload = ''v2'', timestamp = 7\<rparr>)]
        [(''k1'', \<lparr>payload = ''v1'', timestamp = 5\<rparr>),
         (''k2'', \<lparr>payload = ''v2'', timestamp = 7\<rparr>)]
      = [(''k1'', \<lparr>payload = ''v1'', timestamp = 5\<rparr>),
         (''k2'', \<lparr>payload = ''v2'', timestamp = 7\<rparr>)]"
proof -
  have w: "wf_layout [(''k1'', \<lparr>payload = ''v1'', timestamp = 5\<rparr>),
                      (''k2'', \<lparr>payload = ''v2'', timestamp = 7\<rparr>)]"
    by (simp add: wf_layout_def)
  from resolveConflicts_idem [OF w] w show ?thesis by simp
qed

text \<open>
  Claim C2, as amended. For layouts \<open>local\<close> and \<open>remote\<close> and a key of either,
  \<open>resolveConflicts local remote\<close> maps the key to: the sole element when only one
  layout has the key; the element with the strictly larger timestamp when both have
  it with different timestamps; and the element of \<open>local\<close>, the existing layout, when
  the two timestamps are equal. For a key that only \<open>remote\<close> has, this is stated for
  keys that do not name a member of \<open>Object.prototype\<close>.
\<close>

theorem resolveConflicts_lookup:
  assumes "wf_layout remote"
    and "map_of local key \<noteq> None \<or> key \<notin> set object_prototype_names"
  shows "map_of (resolveConflicts local remote) key =
     (case map_of remote key of
        None \<Rightarrow> map_of local key
      | Some r \<Rightarrow>
          (case map_of local key of
             None \<Rightarrow> Some r
           | Some l \<Rightarrow> if timestamp r > timestamp l then Some r else Some l))"
proof -
  from assms(1) have d: "distinct (map fst remote)" by (simp add: wf_layout_def)
  show ?thesis
  proof (cases "map_of local key")
    case None
    with assms(2) show ?thesis
      by (simp add: resolveConflicts_def map_of_fold_resolve [OF d] accepts_absent
          split: option.splits)
  next
    case (Some l)
    then show ?thesis
      by (simp add: resolveConflicts_def map_of_fold_resolve [OF d] accepts_own
          split: option.splits)
  qed
qed

theorem resolveConflicts_lookup_witness:
  "wf_layout [(''k1'', \<lparr>payload = ''v2'', timestamp = 7\<rparr>),
              (''k2'', \<lparr>payload = ''w2'', timestamp = 3\<rparr>),
              (''k3'', \<lparr>payload = ''x2'', timestamp = 4\<rparr>)]
   \<and> map_of [(''k1'', \<lparr>payload = ''v1'', timestamp = 5\<rparr>),
              (''k2'', \<lparr>payload = ''w1'', timestamp = 3\<rparr>)] ''k1'' \<noteq> None
   \<and> map_of (resolveConflicts
                [(''k1'', \<lparr>payload = ''v1'', timestamp = 5\<rparr>),
                 (''k2'', \<lparr>payload = ''w1'', timestamp = 3\<rparr>)]
                [(''k1'', \<lparr>payload = ''v2'', timestamp = 7\<rparr>),
                 (''k2'', \<lparr>payload = ''w2'', timestamp = 3\<rparr>),
                 (''k3'', \<lparr>payload = ''x2'', timestamp = 4\<rparr>)]) ''k1''
       = Some \<lparr>payload = ''v2'', timestamp = 7\<rparr>"
proof -
  have w: "wf_layout [(''k1'', \<lparr>payload = ''v2'', timestamp = 7\<rparr>),
                      (''k2'', \<lparr>payload = ''w2'', timestamp = 3\<rparr>),
                      (''k3'', \<lparr>payload = ''x2'', timestamp = 4\<rparr>)]"
    by (simp add: wf_layout_def)
  have p: "map_of [(''k1'', \<lparr>payload = ''v1'', timestamp = 5\<rparr>),
                   (''k2'', \<lparr>payload = ''w1'', timestamp = 3\<rparr>)] ''k1'' \<noteq> None
           \<or> ''k1'' \<notin> set object_prototype_names"
    by simp
  from resolveConflicts_lookup [OF w p] w p show ?thesis by simp
qed

text \<open>
  Claim C2 as stated fails on a tie: with the key \<open>k1\<close> at timestamp 5 in both
  layouts, the merge keeps the element of the existing layout, not the remote one.
\<close>

theorem resolveConflicts_tie_counterexample:
  "timestamp \<lparr>payload = ''v1'', timestamp = 5\<rparr> = timestamp \<lparr>payload = ''v2'', timestamp = 5\<rparr>
   \<and> map_of [(''k1'', \<lparr>payload = ''v2'', timestamp = 5\<rparr>)] ''k1''
       = Some \<lparr>payload = ''v2'', timestamp = 5\<rparr>
   \<and> map_of (resolveConflicts [(''k1'', \<lparr>payload = ''v1'', timestamp = 5\<rparr>)]
                               [(''k1'', \<lparr>payload = ''v2'', timestamp = 5\<rparr>)]) ''k1''
       \<noteq> Some \<lparr>payload = ''v2'', timestamp = 5\<rparr>"
  by (simp add: resolveConflicts_def resolve_entry_def js_get_def)

text \<open>
  Claim C3, as amended. For well-formed layouts \<open>a\<close> and \<open>b\<close> whose keys do not name
  members of \<open>Object.prototype\<close> and in which no key carries the same timestamp with
  different elements, \<open>resolveConflicts a b\<close> and \<open>resolveConflicts b a\<close> are the same
  mapping.
\<close>

theorem resolveConflicts_commute:
  assumes wa: "wf_layout a" and wb: "wf_layout b"
    and pa: "plain_keys a" and pb: "plain_keys b"
    and tf: "tie_free a b"
  shows "same_layout (resolveConflicts a b) (resolveConflicts b a)"
  unfolding same_layout_def
proof (rule ext)
  fix k
  show "map_of (resolveConflicts a b) k = map_of (resolveConflicts b a) k"
  proof (cases "map_of a k")
    case None
    note na = None
    show ?thesis
    proof (cases "map_of b k")
      case None
      with na show ?thesis
        by (simp add: resolveConflicts_def map_of_fold_resolve wa [unfolded wf_layout_def]
            wb [unfolded wf_layout_def])
    next
      case (Some eb)
      with na plain_keysD [OF pb Some] show ?thesis
        by (simp add: resolveConflicts_def map_of_fold_resolve wa [unfolded wf_layout_def]
            wb [unfolded wf_layout_def] accepts_absent)
    qed
  next
    case (Some ea)
    note sa = Some
    show ?thesis
    proof (cases "map_of b k")
      case None
      with sa plain_keysD [OF pa sa] show ?thesis
        by (simp add: resolveConflicts_def map_of_fold_resolve wa [unfolded wf_layout_def]
            wb [unfolded wf_layout_def] accepts_absent)
    next
      case (Some eb)
      with sa tie_freeD [OF tf sa Some] show ?thesis
        by (auto simp add: resolveConflicts_def map_of_fold_resolve wa [unfolded wf_layout_def]
            wb [unfolded wf_layout_def] accepts_own)
    qed
  qed
qed

theorem resolveConflicts_commute_witness:
  "wf_layout [(''k1'', \<lparr>payload = ''v1'', timestamp = 5\<rparr>),
              (''k2'', \<lparr>payload = ''w1'', timestamp = 3\<rparr>)]
   \<and> wf_layout [(''k1'', \<lparr>payload = ''v2'', timestamp = 7\<rparr>),
                (''k2'', \<lparr>payload = ''w1'', timestamp = 3\<rparr>),
                (''k3'', \<lparr>payload = ''x2'', timestamp = 4\<rparr>)]
   \<and> plain_keys [(''k1'', \<lparr>payload = ''v1'', timestamp = 5\<rparr>),
                 (''k2'', \<lparr>payload = ''w1'', timestamp = 3\<rparr>)]
   \<and> plain_keys [(''k1'', \<lparr>payload = ''v2'', timestamp = 7\<rparr>),
                 (''k2'', \<lparr>payload = ''w1'', timestamp = 3\<rparr>),
                 (''k3'', \<lparr>payload = ''x2'', timestamp = 4\<rparr>)]
   \<and> tie_free [(''k1'', \<lparr>payload = ''v1'', timestamp = 5\<rparr>),
               (''k2'', \<lparr>payload = ''w1'', timestamp = 3\<rparr>)]
              [(''k1'', \<lparr>payload = ''v2'', timestamp = 7\<rparr>),
               (''k2'', \<lparr>payload = ''w1'', timestamp = 3\<rparr>),
               (''k3'', \<lparr>payload = ''x2'', timestamp = 4\<rparr>)]
   \<and> same_layout
        (resolveConflicts
           [(''k1'', \<lparr>payload = ''v1'', timestamp = 5\<rparr>),
            (''k2'', \<lparr>payload = ''w1'', timestamp = 3\<rparr>)]
           [(''k1'', \<lparr>payload = ''v2'', timestamp = 7\<rparr>),
            (''k2'', \<lparr>payload = ''w1'', timestamp = 3\<rparr>),
            (''k3'', \<lparr>payload = ''x2'', timestamp = 4\<rparr>)])
        (resolveConflicts
           [(''k1'', \<lparr>payload = ''v2'', timestamp = 7\<rparr>),
            (''k2'', \<lparr>payload = ''w1'', timestamp = 3\<rparr>),
            (''k3'', \<lparr>payload = ''x2'', timestamp = 4\<rparr>)]
           [(''k1'', \<lparr>payload = ''v1'', timestamp = 5\<rparr>),
            (''k2'', \<lparr>payload = ''w1'', timestamp = 3\<rparr>)])"
proof -
  have wa: "wf_layout [(''k1'', \<lparr>payload = ''v1'', timestamp = 5\<rparr>),
                       (''k2'', \<lparr>payload = ''w1'', timestamp = 3\<rparr>)]"
    by (simp add: wf_layout_def)
  have wb: "wf_layout [(''k1'', \<lparr>payload = ''v2'', timestamp = 7\<rparr>),
                       (''k2'', \<lparr>payload = ''w1'', timestamp = 3\<rparr>),
                       (''k3'', \<lparr>payload = ''x2'', timestamp = 4\<rparr>)]"
    by (simp add: wf_layout_def)
  have pa: "plain_keys [(''k1'', \<lparr>payload = ''v1'', timestamp = 5\<rparr>),
                        (''k2'', \<lparr>payload = ''w1'', timestamp = 3\<rparr>)]"
    by (simp add: plain_keys_def object_prototype_names_def)
  have pb: "plain_keys [(''k1'', \<lparr>payload = ''v2'', timestamp = 7\<rparr>),
                        (''k2'', \<lparr>payload = ''w1'', timestamp = 3\<rparr>),
                        (''k3'', \<lparr>payload = ''x2'', timestamp = 4\<rparr>)]"
    by (simp add: plain_keys_def object_prototype_names_def)
  have tf: "tie_free [(''k1'', \<lparr>payload = ''v1'', timestamp = 5\<rparr>),
                      (''k2'', \<lparr>payload = ''w1'', timestamp = 3\<rparr>)]
                     [(''k1'', \<lparr>payload = ''v2'', timestamp = 7\<rparr>),
                      (''k2'', \<lparr>payload = ''w1'', timestamp = 3\<rparr>),
                      (''k3'', \<lparr>payload = ''x2'', timestamp = 4\<rparr>)]"
    by (simp add: tie_free_def)
  from resolveConflicts_commute [OF wa wb pa pb tf] wa wb pa pb tf show ?thesis by simp
qed

text \<open>
  Claim C3 as stated fails on a tie: each order of the arguments keeps the element
  of its first argument under the key \<open>k1\<close>.
\<close>

theorem resolveConflicts_commute_counterexample:
  "\<not> same_layout
       (resolveConflicts [(''k1'', \<lparr>payload = ''v1'', timestamp = 5\<rparr>)]
                         [(''k1'', \<lparr>payload = ''v2'', timestamp = 5\<rparr>)])
       (resolveConflicts [(''k1'', \<lparr>payload = ''v2'', timestamp = 5\<rparr>)]
                         [(''k1'', \<lparr>payload = ''v1'', timestamp = 5\<rparr>)])"
proof
  assume "same_layout
       (resolveConflicts [(''k1'', \<lparr>payload = ''v1'', timestamp = 5\<rparr>)]
                         [(''k1'', \<lparr>payload = ''v2'', timestamp = 5\<rparr>)])
       (resolveConflicts [(''k1'', \<lparr>payload = ''v2'', timestamp = 5\<rparr>)]
                         [(''k1'', \<lparr>payload = ''v1'', timestamp = 5\<rparr>)])"
  then have "map_of (resolveConflicts [(''k1'', \<lparr>payload = ''v1'', timestamp = 5\<rparr>)]
                         [(''k1'', \<lparr>payload = ''v2'', timestamp = 5\<rparr>)]) ''k1''
     = map_of (resolveConflicts [(''k1'', \<lparr>payload = ''v2'', timestamp = 5\<rparr>)]
                         [(''k1'', \<lparr>payload = ''v1'', timestamp = 5\<rparr>)]) ''k1''"
    by (simp add: same_layout_def)
  then show False
    by (simp add: resolveConflicts_def resolve_entry_def js_get_def)
qed

section \<open>Properties of \<open>suggestMeetingRoom\<close>\<close>

lemma set_find_rooms: "set (find_rooms rs n) = {r \<in> set rs. n \<le> capacity r}"
  by (auto simp: find_rooms_def)

lemma find_rooms_empty_iff: "find_rooms rs n = [] \<longleftrightarrow> \<not> (\<exists>r\<in>set rs. n \<le> capacity r)"
proof -
  have "find_rooms rs n = [] \<longleftrightarrow> set (find_rooms rs n) = {}" by simp
  then show ?thesis by (auto simp: set_find_rooms)
qed

lemma hd_find_rooms_least:
  assumes "r' \<in> set rs" and "n \<le> capacity r'"
  shows "room_sort_key (hd (find_rooms rs n)) \<le> room_sort_key r'"
proof -
  from assms have mem: "r' \<in> set (find_rooms rs n)" by (simp add: set_find_rooms)
  then obtain x xs where xs: "find_rooms rs n = x # xs" by (cases "find_rooms rs n") auto
  have "sorted (map room_sort_key (find_rooms rs n))" by (simp add: find_rooms_def)
  with xs have "\<forall>y\<in>set xs. room_sort_key x \<le> room_sort_key y" by simp
  with mem xs show ?thesis by auto
qed

lemma suggest_Suggested_iff:
  "suggestMeetingRoom rs n = Suggested r \<longleftrightarrow> find_rooms rs n \<noteq> [] \<and> r = hd (find_rooms rs n)"
  by (auto simp: suggestMeetingRoom_def Let_def)

lemma suggest_NoSuitableRoom_iff:
  "suggestMeetingRoom rs n = NoSuitableRoom \<longleftrightarrow> find_rooms rs n = []"
  by (auto simp: suggestMeetingRoom_def Let_def)

lemma room_sort_key_capacity: "room_sort_key r \<le> room_sort_key r' \<Longrightarrow> capacity r \<le> capacity r'"
  by (auto simp: room_sort_key_def less_eq_prod_def)

text \<open>
  The scenario of two rooms never booked, of capacities 6 and 4, and a request for 3
  participants: the room of capacity 4 is suggested.
\<close>

lemma suggest_scenario:
  "suggestMeetingRoom [\<lparr>room_id = 1, capacity = 6, lastBooked = None\<rparr>,
                       \<lparr>room_id = 2, capacity = 4, lastBooked = None\<rparr>] 3
   = Suggested \<lparr>room_id = 2, capacity = 4, lastBooked = None\<rparr>"
  by (simp add: suggestMeetingRoom_def find_rooms_def room_sort_key_def)

text \<open>
  Claim C5. For a required capacity \<open>n\<close> and a collection of rooms, the suggestion is
  \<open>NoSuitableRoom\<close> (the answer 404) when no room has capacity at least \<open>n\<close>; otherwise
  it is a room \<open>r\<close> of the collection with capacity at least \<open>n\<close>, and no room of
  capacity at least \<open>n\<close> has a capacity strictly smaller than that of \<open>r\<close>.
\<close>

theorem suggest_best_fit:
  "(\<not> (\<exists>r\<in>set rs. n \<le> capacity r) \<longrightarrow> suggestMeetingRoom rs n = NoSuitableRoom)
   \<and> ((\<exists>r\<in>set rs. n \<le> capacity r) \<longrightarrow>
        (\<exists>r. suggestMeetingRoom rs n = Suggested r \<and> r \<in> set rs \<and> n \<le> capacity r
             \<and> (\<forall>r'\<in>set rs. n \<le> capacity r' \<longrightarrow> \<not> capacity r' < capacity r)))"
proof (intro conjI impI)
  assume "\<not> (\<exists>r\<in>set rs. n \<le> capacity r)"
  then show "suggestMeetingRoom rs n = NoSuitableRoom"
    by (simp add: suggest_NoSuitableRoom_iff find_rooms_empty_iff)
next
  assume ex: "\<exists>r\<in>set rs. n \<le> capacity r"
  then have ne: "find_rooms rs n \<noteq> []" by (simp add: find_rooms_empty_iff)
  let ?r = "hd (find_rooms rs n)"
  from ne have "?r \<in> set (find_rooms rs n)" by simp
  then have mem: "?r \<in> set rs" and cap: "n \<le> capacity ?r" by (simp_all add: set_find_rooms)
  have least: "\<forall>r'\<in>set rs. n \<le> capacity r' \<longrightarrow> \<not> capacity r' < capacity ?r"
    using hd_find_rooms_least room_sort_key_capacity by fastforce
  from ne have "suggestMeetingRoom rs n = Suggested ?r" by (simp add: suggest_Suggested_iff)
  with mem cap least
  show "\<exists>r. suggestMeetingRoom rs n = Suggested r \<and> r \<in> set rs \<and> n \<le> capacity r
             \<and> (\<forall>r'\<in>set rs. n \<le> capacity r' \<longrightarrow> \<not> capacity r' < capacity r)"
    by blast
qed

theorem suggest_best_fit_witness:
  "(\<exists>r\<in>set [\<lparr>room_id = 1, capacity = 6, lastBooked = None\<rparr>,
              \<lparr>room_id = 2, capacity = 4, lastBooked = None\<rparr>]. 3 \<le> capacity r)
   \<and> (\<exists>r. suggestMeetingRoom [\<lparr>room_id = 1, capacity = 6, lastBooked = None\<rparr>,
                               \<lparr>room_id = 2, capacity = 4, lastBooked = None\<rparr>] 3 = Suggested r
          \<and> r \<in> set [\<lparr>room_id = 1, capacity = 6, lastBooked = None\<rparr>,
                      \<lparr>room_id = 2, capacity = 4, lastBooked = None\<rparr>]
          \<and> 3 \<le> capacity r
          \<and> (\<forall>r'\<in>set [\<lparr>room_id = 1, capacity = 6, lastBooked = None\<rparr>,
                        \<lparr>room_id = 2, capacity = 4, lastBooked = None\<rparr>].
                3 \<le> capacity r' \<longrightarrow> \<not> capacity r' < capacity r))
   \<and> \<not> (\<exists>r\<in>set [\<lparr>room_id = 1, capacity = 6, lastBooked = None\<rparr>,
                  \<lparr>room_id = 2, capacity = 4, lastBooked = None\<rparr>]. 7 \<le> capacity r)
   \<and> suggestMeetingRoom [\<lparr>room_id = 1, capacity = 6, lastBooked = None\<rparr>,
                          \<lparr>room_id = 2, capacity = 4, lastBooked = None\<rparr>] 7 = NoSuitableRoom"
proof -
  let ?rs = "[\<lparr>room_id = 1, capacity = 6, lastBooked = None\<rparr>,
              \<lparr>room_id = 2, capacity = 4, lastBooked = None\<rparr>]"
  have some: "\<exists>r\<in>set ?rs. 3 \<le> capacity r" by simp
  have none: "\<not> (\<exists>r\<in>set ?rs. 7 \<le> capacity r)" by simp
  from suggest_best_fit [of ?rs 3] some
  have a: "\<exists>r. suggestMeetingRoom ?rs 3 = Suggested r \<and> r \<in> set ?rs \<and> 3 \<le> capacity r
          \<and> (\<forall>r'\<in>set ?rs. 3 \<le> capacity r' \<longrightarrow> \<not> capacity r' < capacity r)"
    by blast
  from suggest_best_fit [of ?rs 7] none
  have b: "suggestMeetingRoom ?rs 7 = NoSuitableRoom" by blast
  from some a none b show ?thesis by blast
qed

text \<open>
  Claim C6, as amended. The suggested room is a minimum, among the rooms of sufficient
  capacity, of the order the code sorts by: capacity ascending, then \<open>lastBooked\<close>
  ascending. Identity is not a sort key. When no other room of sufficient capacity
  equals the suggested one on both keys, the suggested room is the only minimum and
  every order of the same collection of rooms gives the same suggestion.
\<close>

theorem suggest_minimum_of_sort_keys:
  assumes "suggestMeetingRoom rs n = Suggested r"
  shows "r \<in> set rs \<and> n \<le> capacity r
     \<and> (\<forall>r'\<in>set rs. n \<le> capacity r' \<longrightarrow> room_sort_key r \<le> room_sort_key r')
     \<and> ((\<forall>r'\<in>set rs. n \<le> capacity r' \<and> room_sort_key r' = room_sort_key r \<longrightarrow> r' = r)
          \<longrightarrow> (\<forall>rs'. set rs' = set rs \<longrightarrow> suggestMeetingRoom rs' n = Suggested r))"
proof -
  from assms have ne: "find_rooms rs n \<noteq> []" and r: "r = hd (find_rooms rs n)"
    by (simp_all add: suggest_Suggested_iff)
  from ne r have "r \<in> set (find_rooms rs n)" by simp
  then have mem: "r \<in> set rs" and cap: "n \<le> capacity r" by (simp_all add: set_find_rooms)
  have least: "\<forall>r'\<in>set rs. n \<le> capacity r' \<longrightarrow> room_sort_key r \<le> room_sort_key r'"
    using hd_find_rooms_least r by blast
  have uniq: "\<forall>rs'. set rs' = set rs \<longrightarrow> suggestMeetingRoom rs' n = Suggested r"
    if u: "\<forall>r'\<in>set rs. n \<le> capacity r' \<and> room_sort_key r' = room_sort_key r \<longrightarrow> r' = r"
  proof (intro allI impI)
    fix rs' assume eq: "set rs' = set rs"
    let ?h = "hd (find_rooms rs' n)"
    from mem cap eq have ne': "find_rooms rs' n \<noteq> []"
      by (auto simp: find_rooms_empty_iff)
    then have "?h \<in> set (find_rooms rs' n)" by simp
    with eq have hmem: "?h \<in> set rs" and hcap: "n \<le> capacity ?h"
      by (simp_all add: set_find_rooms)
    from mem cap eq have "room_sort_key ?h \<le> room_sort_key r"
      by (simp add: hd_find_rooms_least)
    moreover from least hmem hcap have "room_sort_key r \<le> room_sort_key ?h" by blast
    ultimately have "room_sort_key ?h = room_sort_key r" by simp
    with u hmem hcap have "?h = r" by blast
    with ne' show "suggestMeetingRoom rs' n = Suggested r"
      by (simp add: suggest_Suggested_iff)
  qed
  from mem cap least uniq show ?thesis by blast
qed

theorem suggest_minimum_of_sort_keys_witness:
  "suggestMeetingRoom [\<lparr>room_id = 1, capacity = 6, lastBooked = None\<rparr>,
                       \<lparr>room_id = 2, capacity = 4, lastBooked = Some 50\<rparr>,
                       \<lparr>room_id = 3, capacity = 4, lastBooked = None\<rparr>] 3
     = Suggested \<lparr>room_id = 3, capacity = 4, lastBooked = None\<rparr>
   \<and> room_sort_key \<lparr>room_id = 3, capacity = 4, lastBooked = None\<rparr>
       \<le> room_sort_key \<lparr>room_id = 2, capacity = 4, lastBooked = Some 50\<rparr>
   \<and> room_sort_key \<lparr>room_id = 3, capacity = 4, lastBooked = None\<rparr>
       \<le> room_sort_key \<lparr>room_id = 1, capacity = 6, lastBooked = None\<rparr>
   \<and> suggestMeetingRoom [\<lparr>room_id = 3, capacity = 4, lastBooked = None\<rparr>,
                          \<lparr>room_id = 2, capacity = 4, lastBooked = Some 50\<rparr>,
                          \<lparr>room_id = 1, capacity = 6, lastBooked = None\<rparr>] 3
     = Suggested \<lparr>room_id = 3, capacity = 4, lastBooked = None\<rparr>
   \<and> suggestMeetingRoom [\<lparr>room_id = 2, capacity = 4, lastBooked = Some 50\<rparr>,
                          \<lparr>room_id = 1, capacity = 6, lastBooked = None\<rparr>,
                          \<lparr>room_id = 3, capacity = 4, lastBooked = None\<rparr>] 3
     = Suggested \<lparr>room_id = 3, capacity = 4, lastBooked = None\<rparr>"
proof -
  let ?r1 = "\<lparr>room_id = 1, capacity = 6, lastBooked = None\<rparr>"
  let ?r2 = "\<lparr>room_id = 2, capacity = 4, lastBooked = Some 50\<rparr>"
  let ?r3 = "\<lparr>room_id = 3, capacity = 4, lastBooked = None\<rparr>"
  let ?rs = "[?r1, ?r2, ?r3]"
  have sel: "suggestMeetingRoom ?rs 3 = Suggested ?r3"
    by (simp add: suggestMeetingRoom_def find_rooms_def room_sort_key_def)
  have u: "\<forall>r'\<in>set ?rs. 3 \<le> capacity r' \<and> room_sort_key r' = room_sort_key ?r3 \<longrightarrow> r' = ?r3"
    by (simp add: room_sort_key_def)
  note th = suggest_minimum_of_sort_keys [OF sel]
  from th have least: "\<forall>r'\<in>set ?rs. 3 \<le> capacity r' \<longrightarrow> room_sort_key ?r3 \<le> room_sort_key r'"
    by blast
  from th u have perm: "\<forall>rs'. set rs' = set ?rs \<longrightarrow> suggestMeetingRoom rs' 3 = Suggested ?r3"
    by blast
  from least have l2: "room_sort_key ?r3 \<le> room_sort_key ?r2" by simp
  from least have l1: "room_sort_key ?r3 \<le> room_sort_key ?r1" by simp
  have "set [?r3, ?r2, ?r1] = set ?rs" by auto
  with perm have p1: "suggestMeetingRoom [?r3, ?r2, ?r1] 3 = Suggested ?r3" by blast
  have "set [?r2, ?r1, ?r3] = set ?rs" by auto
  with perm have p2: "suggestMeetingRoom [?r2, ?r1, ?r3] 3 = Suggested ?r3" by blast
  from sel l2 l1 p1 p2 show ?thesis by blast
qed

text \<open>
  Claim C6 as stated fails for two rooms never booked of the same capacity: with the
  room of identity 2 first in the collection, it is suggested, although the room of
  identity 1 is below it in the specification's order; with the two rooms in the
  other order, the room of identity 1 is suggested.
\<close>

theorem suggest_identity_counterexample:
  "suggestMeetingRoom [\<lparr>room_id = 2, capacity = 4, lastBooked = None\<rparr>,
                       \<lparr>room_id = 1, capacity = 4, lastBooked = None\<rparr>] 3
     = Suggested \<lparr>room_id = 2, capacity = 4, lastBooked = None\<rparr>
   \<and> 3 \<le> capacity \<lparr>room_id = 1, capacity = 4, lastBooked = None\<rparr>
   \<and> spec_room_key \<lparr>room_id = 1, capacity = 4, lastBooked = None\<rparr>
       < spec_room_key \<lparr>room_id = 2, capacity = 4, lastBooked = None\<rparr>
   \<and> suggestMeetingRoom [\<lparr>room_id = 1, capacity = 4, lastBooked = None\<rparr>,
                          \<lparr>room_id = 2, capacity = 4, lastBooked = None\<rparr>] 3
     = Suggested \<lparr>room_id = 1, capacity = 4, lastBooked = None\<rparr>"
  by (simp add: suggestMeetingRoom_def find_rooms_def room_sort_key_def spec_room_key_def)

section \<open>Properties of \<open>bookMeetingRoom\<close>\<close>

text \<open>
  The invariant reads, by positions: no two bookings at different places of the list
  overlap.
\<close>

lemma pairwise_disjoint_snoc:
  "pairwise_disjoint (bs @ [b]) \<longleftrightarrow>
     pairwise_disjoint bs \<and> (\<forall>c\<in>set bs. \<not> spec_overlaps (interval c) (interval b))"
  by (induction bs) (auto simp: list_all_iff)

lemma pairwise_disjoint_nth:
  "pairwise_disjoint bs \<longleftrightarrow>
     (\<forall>i j. i < j \<and> j < length bs \<longrightarrow> \<not> spec_overlaps (interval (bs ! i)) (interval (bs ! j)))"
proof -
  have "pairwise_disjoint bs = sorted_wrt (\<lambda>b c. \<not> spec_overlaps (interval b) (interval c)) bs"
    by (induction bs) (auto simp: list_all_iff)
  then show ?thesis by (auto simp: sorted_wrt_iff_nth_less)
qed

lemma book_cases:
  "bookMeetingRoom s now req = (resp, s') \<Longrightarrow>
     (resp = RoomNotFound \<and> s' = s \<and> findById (rooms s) (req_roomId req) = None)
   \<or> (resp = CapacityExceeded \<and> s' = s
        \<and> (\<exists>mr. findById (rooms s) (req_roomId req) = Some mr \<and> req_participants req > capacity mr))
   \<or> (resp = SlotConflict \<and> s' = s \<and> overlappingBookings s req \<noteq> [])
   \<or> (\<exists>b. resp = Booked b \<and> overlappingBookings s req = []
          \<and> meetingRoom b = req_roomId req
          \<and> interval b = (req_startTime req, req_endTime req)
          \<and> bookings s' = bookings s @ [b])"
  by (auto simp: bookMeetingRoom_def Let_def interval_def split: option.splits if_splits)

lemma no_overlapping_disjoint:
  assumes "overlappingBookings s req = []" and "c \<in> set (room_bookings s (req_roomId req))"
  shows "\<not> spec_overlaps (interval c) (req_startTime req, req_endTime req)"
proof
  assume ov: "spec_overlaps (interval c) (req_startTime req, req_endTime req)"
  from assms(2) have c: "c \<in> set (bookings s)" and r: "meetingRoom c = req_roomId req"
    by (simp_all add: room_bookings_def)
  from ov have "overlap_query (startTime c) (endTime c) (req_startTime req) (req_endTime req)"
    by (auto simp: spec_overlaps_def overlap_query_def interval_def)
  with c r have "c \<in> set (overlappingBookings s req)"
    by (simp add: overlappingBookings_def)
  with assms(1) show False by simp
qed

lemma book_preserves_disjoint:
  assumes inv: "pairwise_disjoint (room_bookings s rid)"
    and call: "bookMeetingRoom s now req = (Booked b, s')"
  shows "pairwise_disjoint (room_bookings s' rid)"
proof -
  from book_cases [OF call]
  have none: "overlappingBookings s req = []" and rb: "meetingRoom b = req_roomId req"
    and ib: "interval b = (req_startTime req, req_endTime req)"
    and bs: "bookings s' = bookings s @ [b]"
    by auto
  show ?thesis
  proof (cases "rid = req_roomId req")
    case True
    with bs rb have "room_bookings s' rid = room_bookings s rid @ [b]"
      by (simp add: room_bookings_def)
    moreover from none True ib
    have "\<forall>c\<in>set (room_bookings s rid). \<not> spec_overlaps (interval c) (interval b)"
      by (simp add: no_overlapping_disjoint)
    ultimately show ?thesis using inv by (simp add: pairwise_disjoint_snoc)
  next
    case False
    with bs rb have "room_bookings s' rid = room_bookings s rid"
      by (simp add: room_bookings_def)
    with inv show ?thesis by simp
  qed
qed

text \<open>
  The scenario of a room of capacity 4 booked from 600 to 660: a request for 630 to
  645 is answered with the slot conflict, a request for 6 participants with the
  capacity error.
\<close>

lemma book_scenario:
  "fst (bookMeetingRoom
      \<lparr>rooms = [\<lparr>room_id = 1, capacity = 4, lastBooked = None\<rparr>],
        bookings = [\<lparr>meetingRoom = 1, bookedBy = ''ann'', participants = 2,
                     startTime = 600, endTime = 660\<rparr>]\<rparr>
      1000 \<lparr>req_roomId = 1, req_bookedBy = ''bob'', req_participants = 3,
             req_startTime = 630, req_endTime = 645\<rparr>) = SlotConflict
   \<and> fst (bookMeetingRoom
      \<lparr>rooms = [\<lparr>room_id = 1, capacity = 4, lastBooked = None\<rparr>],
        bookings = [\<lparr>meetingRoom = 1, bookedBy = ''ann'', participants = 2,
                     startTime = 600, endTime = 660\<rparr>]\<rparr>
      1000 \<lparr>req_roomId = 1, req_bookedBy = ''bob'', req_participants = 6,
             req_startTime = 660, req_endTime = 690\<rparr>) = CapacityExceeded"
  by (simp add: bookMeetingRoom_def findById_def overlappingBookings_def overlap_query_def)

text \<open>
  Claim C1. For every room: when the bookings committed for the room are pairwise
  non-overlapping as half-open intervals \<open>[startTime, endTime)\<close>, they still are after
  any sequence of calls of \<open>bookMeetingRoom\<close>, made one after the other, that all
  succeed. A call succeeds only when the query finds no overlapping booking of the
  room, and the first clause of the query is the half-open predicate.
\<close>

theorem book_seq_preserves_disjoint:
  assumes "pairwise_disjoint (room_bookings s rid)" and "book_seq s calls = Some s'"
  shows "pairwise_disjoint (room_bookings s' rid)"
  using assms
proof (induction calls arbitrary: s)
  case Nil
  then show ?case by simp
next
  case (Cons call calls)
  obtain now req where call: "call = (now, req)" by (cases call)
  obtain resp s1 where step: "bookMeetingRoom s now req = (resp, s1)"
    by (cases "bookMeetingRoom s now req")
  from Cons.prems(2) call step obtain b where b: "resp = Booked b" and rest: "book_seq s1 calls = Some s'"
    by (cases resp) simp_all
  from Cons.prems(1) step b have "pairwise_disjoint (room_bookings s1 rid)"
    by (simp add: book_preserves_disjoint)
  then show ?case using rest by (rule Cons.IH)
qed

theorem book_seq_preserves_disjoint_witness:
  "pairwise_disjoint (room_bookings
      \<lparr>rooms = [\<lparr>room_id = 1, capacity = 4, lastBooked = None\<rparr>],
        bookings = [\<lparr>meetingRoom = 1, bookedBy = ''ann'', participants = 2,
                     startTime = 600, endTime = 660\<rparr>]\<rparr> 1)
   \<and> book_seq
        \<lparr>rooms = [\<lparr>room_id = 1, capacity = 4, lastBooked = None\<rparr>],
          bookings = [\<lparr>meetingRoom = 1, bookedBy = ''ann'', participants = 2,
                       startTime = 600, endTime = 660\<rparr>]\<rparr>
        [(1000, \<lparr>req_roomId = 1, req_bookedBy = ''bob'', req_participants = 3,
                  req_startTime = 660, req_endTime = 690\<rparr>),
         (1001, \<lparr>req_roomId = 1, req_bookedBy = ''cy'', req_participants = 4,
                  req_startTime = 540, req_endTime = 600\<rparr>)]
      = Some \<lparr>rooms = [\<lparr>room_id = 1, capacity = 4, lastBooked = Some 1001\<rparr>],
               bookings = [\<lparr>meetingRoom = 1, bookedBy = ''ann'', participants = 2,
                            startTime = 600, endTime = 660\<rparr>,
                           \<lparr>meetingRoom = 1, bookedBy = ''bob'', participants = 3,
                            startTime = 660, endTime = 690\<rparr>,
                           \<lparr>meetingRoom = 1, bookedBy = ''cy'', participants = 4,
                            startTime = 540, endTime = 600\<rparr>]\<rparr>
   \<and> pairwise_disjoint (room_bookings
      \<lparr>rooms = [\<lparr>room_id = 1, capacity = 4, lastBooked = Some 1001\<rparr>],
        bookings = [\<lparr>meetingRoom = 1, bookedBy = ''ann'', participants = 2,
                     startTime = 600, endTime = 660\<rparr>,
                    \<lparr>meetingRoom = 1, bookedBy = ''bob'', participants = 3,
                     startTime = 660, endTime = 690\<rparr>,
                    \<lparr>meetingRoom = 1, bookedBy = ''cy'', participants = 4,
                     startTime = 540, endTime = 600\<rparr>]\<rparr> 1)"
proof -
  let ?s = "\<lparr>rooms = [\<lparr>room_id = 1, capacity = 4, lastBooked = None\<rparr>],
             bookings = [\<lparr>meetingRoom = 1, bookedBy = ''ann'', participants = 2,
                          startTime = 600, endTime = 660\<rparr>]\<rparr>"
  let ?calls = "[(1000, \<lparr>req_roomId = 1, req_bookedBy = ''bob'', req_participants = 3,
                          req_startTime = 660, req_endTime = 690\<rparr>),
                 (1001, \<lparr>req_roomId = 1, req_bookedBy = ''cy'', req_participants = 4,
                          req_startTime = 540, req_endTime = 600\<rparr>)]"
  let ?s' = "\<lparr>rooms = [\<lparr>room_id = 1, capacity = 4, lastBooked = Some 1001\<rparr>],
              bookings = [\<lparr>meetingRoom = 1, bookedBy = ''ann'', participants = 2,
                           startTime = 600, endTime = 660\<rparr>,
                          \<lparr>meetingRoom = 1, bookedBy = ''bob'', participants = 3,
                           startTime = 660, endTime = 690\<rparr>,
                          \<lparr>meetingRoom = 1, bookedBy = ''cy'', participants = 4,
                           startTime = 540, endTime = 600\<rparr>]\<rparr>"
  have inv: "pairwise_disjoint (room_bookings ?s 1)"
    by (simp add: room_bookings_def)
  have run: "book_seq ?s ?calls = Some ?s'"
    by (simp add: bookMeetingRoom_def findById_def overlappingBookings_def overlap_query_def
        save_lastBooked_def Let_def)
  from book_seq_preserves_disjoint [OF inv run] inv run show ?thesis by blast
qed

text \<open>
  Claim C7. A call of \<open>bookMeetingRoom\<close> that is rejected, because the room is not
  found, because the participants exceed the room's capacity or because the slot
  overlaps a booking, leaves the store as it was: no booking is created and no room
  is changed.
\<close>

theorem book_rejection_leaves_store:
  assumes "bookMeetingRoom s now req = (resp, s')"
    and "resp = RoomNotFound \<or> resp = CapacityExceeded \<or> resp = SlotConflict"
  shows "s' = s"
  using book_cases [OF assms(1)] assms(2) by auto

theorem book_rejection_leaves_store_witness:
  "bookMeetingRoom
      \<lparr>rooms = [\<lparr>room_id = 1, capacity = 4, lastBooked = None\<rparr>],
        bookings = [\<lparr>meetingRoom = 1, bookedBy = ''ann'', participants = 2,
                     startTime = 600, endTime = 660\<rparr>]\<rparr>
      1000 \<lparr>req_roomId = 1, req_bookedBy = ''bob'', req_participants = 3,
             req_startTime = 630, req_endTime = 645\<rparr>
    = (SlotConflict,
       \<lparr>rooms = [\<lparr>room_id = 1, capacity = 4, lastBooked = None\<rparr>],
         bookings = [\<lparr>meetingRoom = 1, bookedBy = ''ann'', participants = 2,
                     startTime = 600, endTime = 660\<rparr>]\<rparr>)
   \<and> bookMeetingRoom
      \<lparr>rooms = [\<lparr>room_id = 1, capacity = 4, lastBooked = None\<rparr>],
        bookings = [\<lparr>meetingRoom = 1, bookedBy = ''ann'', participants = 2,
                     startTime = 600, endTime = 660\<rparr>]\<rparr>
      1000 \<lparr>req_roomId = 1, req_bookedBy = ''bob'', req_participants = 6,
             req_startTime = 660, req_endTime = 690\<rparr>
    = (CapacityExceeded,
       \<lparr>rooms = [\<lparr>room_id = 1, capacity = 4, lastBooked = None\<rparr>],
         bookings = [\<lparr>meetingRoom = 1, bookedBy = ''ann'', participants = 2,
                     startTime = 600, endTime = 660\<rparr>]\<rparr>)
   \<and> bookMeetingRoom
      \<lparr>rooms = [\<lparr>room_id = 1, capacity = 4, lastBooked = None\<rparr>],
        bookings = [\<lparr>meetingRoom = 1, bookedBy = ''ann'', participants = 2,
                     startTime = 600, endTime = 660\<rparr>]\<rparr>
      1000 \<lparr>req_roomId = 2, req_bookedBy = ''bob'', req_participants = 3,
             req_startTime = 660, req_endTime = 690\<rparr>
    = (RoomNotFound,
       \<lparr>rooms = [\<lparr>room_id = 1, capacity = 4, lastBooked = None\<rparr>],
         bookings = [\<lparr>meetingRoom = 1, bookedBy = ''ann'', participants = 2,
                     startTime = 600, endTime = 660\<rparr>]\<rparr>)"
proof -
  let ?s = "\<lparr>rooms = [\<lparr>room_id = 1, capacity = 4, lastBooked = None\<rparr>],
             bookings = [\<lparr>meetingRoom = 1, bookedBy = ''ann'', participants = 2,
                          startTime = 600, endTime = 660\<rparr>]\<rparr>"
  let ?conflict = "\<lparr>req_roomId = 1, req_bookedBy = ''bob'', req_participants = 3,
                    req_startTime = 630, req_endTime = 645\<rparr>"
  let ?crowd = "\<lparr>req_roomId = 1, req_bookedBy = ''bob'', req_participants = 6,
                 req_startTime = 660, req_endTime = 690\<rparr>"
  obtain r1 s1 where c1: "bookMeetingRoom ?s 1000 ?conflict = (r1, s1)"
    by (cases "bookMeetingRoom ?s 1000 ?conflict")
  have "fst (bookMeetingRoom ?s 1000 ?conflict) = SlotConflict"
    by (simp add: bookMeetingRoom_def findById_def overlappingBookings_def overlap_query_def)
  with c1 have r1: "r1 = SlotConflict" by simp
  then have "r1 = RoomNotFound \<or> r1 = CapacityExceeded \<or> r1 = SlotConflict" by simp
  from book_rejection_leaves_store [OF c1 this] have s1: "s1 = ?s" .
  obtain r2 s2 where c2: "bookMeetingRoom ?s 1000 ?crowd = (r2, s2)"
    by (cases "bookMeetingRoom ?s 1000 ?crowd")
  have "fst (bookMeetingRoom ?s 1000 ?crowd) = CapacityExceeded"
    by (simp add: bookMeetingRoom_def findById_def)
  with c2 have r2: "r2 = CapacityExceeded" by simp
  then have "r2 = RoomNotFound \<or> r2 = CapacityExceeded \<or> r2 = SlotConflict" by simp
  from book_rejection_leaves_store [OF c2 this] have s2: "s2 = ?s" .
  let ?absent = "\<lparr>req_roomId = 2, req_bookedBy = ''bob'', req_participants = 3,
                  req_startTime = 660, req_endTime = 690\<rparr>"
  obtain r3 s3 where c3: "bookMeetingRoom ?s 1000 ?absent = (r3, s3)"
    by (cases "bookMeetingRoom ?s 1000 ?absent")
  have "fst (bookMeetingRoom ?s 1000 ?absent) = RoomNotFound"
    by (simp add: bookMeetingRoom_def findById_def)
  with c3 have r3: "r3 = RoomNotFound" by simp
  then have "r3 = RoomNotFound \<or> r3 = CapacityExceeded \<or> r3 = SlotConflict" by simp
  from book_rejection_leaves_store [OF c3 this] have s3: "s3 = ?s" .
  from c1 r1 s1 c2 r2 s2 c3 r3 s3 show ?thesis by simp
qed

text \<open>
  Claim C10. A call of \<open>bookMeetingRoom\<close> for a room identity that the store does not
  have is answered with \<open>RoomNotFound\<close> (404, \<open>Meeting room not found\<close>), whatever
  the participants and the times of the request are, and leaves the store as it was.
\<close>

theorem book_unknown_room:
  assumes "findById (rooms s) (req_roomId req) = None"
  shows "bookMeetingRoom s now req = (RoomNotFound, s)"
  using assms by (simp add: bookMeetingRoom_def)

theorem book_unknown_room_witness:
  "findById (rooms \<lparr>rooms = [\<lparr>room_id = 1, capacity = 4, lastBooked = None\<rparr>], bookings = []\<rparr>)
      (req_roomId \<lparr>req_roomId = 7, req_bookedBy = ''bob'', req_participants = 9,
                   req_startTime = 630, req_endTime = 645\<rparr>) = None
   \<and> bookMeetingRoom \<lparr>rooms = [\<lparr>room_id = 1, capacity = 4, lastBooked = None\<rparr>], bookings = []\<rparr>
        1000 \<lparr>req_roomId = 7, req_bookedBy = ''bob'', req_participants = 9,
               req_startTime = 630, req_endTime = 645\<rparr>
      = (RoomNotFound, \<lparr>rooms = [\<lparr>room_id = 1, capacity = 4, lastBooked = None\<rparr>], bookings = []\<rparr>)"
proof -
  have h: "findById (rooms \<lparr>rooms = [\<lparr>room_id = 1, capacity = 4, lastBooked = None\<rparr>], bookings = []\<rparr>)
      (req_roomId \<lparr>req_roomId = 7, req_bookedBy = ''bob'', req_participants = 9,
                   req_startTime = 630, req_endTime = 645\<rparr>) = None"
    by (simp add: findById_def)
  from book_unknown_room [OF h] h show ?thesis by blast
qed

section \<open>Calls one after the other, and calls that interleave\<close>

text \<open>
  The two phases run with nothing between them are \<open>bookMeetingRoom\<close>, and the
  schedule that runs each call to its end before the next is the sequence of calls.
\<close>

lemma bookMeetingRoom_phases:
  "bookMeetingRoom s now req =
     (case read_phase s req of
        Rejected r \<Rightarrow> (r, s)
      | Clear mr \<Rightarrow> write_phase s now mr req)"
  by (simp add: bookMeetingRoom_def read_phase_def write_phase_def split: option.splits)

lemma step_call_twice:
  "step_call s (now, req) Pending = (st, s1) \<Longrightarrow> step_call s1 (now, req) st = (st', s2) \<Longrightarrow>
   bookMeetingRoom s now req = (r, s') \<Longrightarrow> st' = Answered r \<and> s2 = s'"
  by (auto simp: bookMeetingRoom_phases split: read_result.splits prod.splits)

lemma run_schedule_sequential:
  "run_schedule [c1, c2] [0, 0, 1, 1] (s, [Pending, Pending]) =
     (case book_all s [c1, c2] of (rs, s') \<Rightarrow> (s', map Answered rs))"
  by (cases c1; cases c2)
     (auto simp: bookMeetingRoom_phases split: read_result.splits prod.splits)







end
